theory Spec2Isabelle
  imports
    Complex_Main
    "HOL-Library.Sublist"
    "HOL-Library.Char_ord"
    "HOL-Library.List_Lexorder"
    "HOL-Library.Multiset"
begin

section \<open>The employee directory of comp.jsx\<close>

text \<open>
  The component \<^verbatim>\<open>App\<close> of \<^verbatim>\<open>src/comp.jsx\<close> keeps seven pieces of state
  (\<^verbatim>\<open>useState\<close>) and derives from them the city options, the filtered and sorted
  list, the page count and the rows of the current page. Each hook and each handler
  is a function here; a handler takes the state and returns the state after it.

  JavaScript strings are sequences of UTF-16 code units. They are modelled as
  \<^typ>\<open>string\<close>, whose characters are the code units below 256 (Latin-1), ordered by
  their code (\<^verbatim>\<open>Char_ord\<close>) and, as lists, lexicographically
  (\<^verbatim>\<open>List_Lexorder\<close>): this is the order of \<^verbatim>\<open><\<close> on JavaScript strings.
  A property that is \<^verbatim>\<open>undefined\<close> is \<^term>\<open>None\<close>.
\<close>

subsection \<open>Records of the dataset\<close>

record company =
  company_name :: "string option"
  catchPhrase :: "string option"

record address =
  street :: "string option"
  suite :: "string option"
  city :: "string option"
  zipcode :: "string option"

record user =
  user_id :: int
  name :: string
  username :: string
  email :: string
  phone :: string
  website :: string
  company :: "company option"
  address :: "address option"

text \<open>\<^verbatim>\<open>u.address?.city\<close>: \<^verbatim>\<open>undefined\<close> when the address or its city is absent.\<close>

definition address_city :: "user \<Rightarrow> string option" where
  "address_city u = (case address u of None \<Rightarrow> None | Some a \<Rightarrow> city a)"

text \<open>
  \<^verbatim>\<open>u.company?.name || ""\<close>: the empty string when the company or its name is
  absent, and also when the name is the empty string, which is falsy.
\<close>

definition company_name_or_empty :: "user \<Rightarrow> string" where
  "company_name_or_empty u =
     (case company u of
        None \<Rightarrow> []
      | Some c \<Rightarrow>
          (case company_name c of
             None \<Rightarrow> []
           | Some n \<Rightarrow> if n = [] then [] else n))"

subsection \<open>Built-ins of the language\<close>

text \<open>
  \<^verbatim>\<open>String.prototype.toLowerCase\<close> on code units below 256: the letters A to Z
  (65 to 90) and the Latin-1 capitals (192 to 222 without the multiplication sign 215)
  move up by 32; every other code unit stays.
\<close>

definition toLowerChar :: "char \<Rightarrow> char" where
  "toLowerChar c =
     (let n = (of_char c :: nat)
      in if (65 \<le> n \<and> n \<le> 90) \<or> (192 \<le> n \<and> n \<le> 222 \<and> n \<noteq> 215)
         then char_of (n + 32) else c)"

definition toLowerCase :: "string \<Rightarrow> string" where
  "toLowerCase s = map toLowerChar s"

text \<open>
  \<^verbatim>\<open>String.prototype.includes\<close>: the search string is looked for at every position
  of the receiver, from the first to the one past the last.
\<close>

fun includes_str :: "string \<Rightarrow> string \<Rightarrow> bool" where
  "includes_str [] t = (t = [])"
| "includes_str (c # s) t = (prefix t (c # s) \<or> includes_str s t)"

text \<open>
  \<^verbatim>\<open>new Set(iterable)\<close> followed by \<^verbatim>\<open>Array.from\<close>: the distinct values in the
  order of their first occurrence.
\<close>

definition set_add :: "'a list \<Rightarrow> 'a \<Rightarrow> 'a list" where
  "set_add s x = (if x \<in> set s then s else s @ [x])"

definition new_Set :: "'a list \<Rightarrow> 'a list" where
  "new_Set xs = foldl set_add [] xs"

text \<open>
  \<^verbatim>\<open>Array.prototype.sort(comparefn)\<close> is stable, and for a consistent comparator
  (a total preorder, as a collation is) its result is the one stable sorted
  arrangement of the array. The model is the insertion sort that produces it: an
  element goes before the first later element that it does not exceed. For an
  inconsistent comparator the language leaves the order to the engine.
\<close>

fun insort_cmp :: "('a \<Rightarrow> 'a \<Rightarrow> int) \<Rightarrow> 'a \<Rightarrow> 'a list \<Rightarrow> 'a list" where
  "insort_cmp cmp x [] = [x]"
| "insort_cmp cmp x (y # ys) =
     (if cmp x y \<le> 0 then x # y # ys else y # insort_cmp cmp x ys)"

definition array_sort :: "('a \<Rightarrow> 'a \<Rightarrow> int) \<Rightarrow> 'a list \<Rightarrow> 'a list" where
  "array_sort cmp xs = foldr (insort_cmp cmp) xs []"

text \<open>
  The comparator of \<^verbatim>\<open>sort()\<close> without an argument: \<^verbatim>\<open>undefined\<close> after
  everything else, strings by their code units.
\<close>

definition default_compare :: "string option \<Rightarrow> string option \<Rightarrow> int" where
  "default_compare x y =
     (case x of
        None \<Rightarrow> (case y of None \<Rightarrow> 0 | Some b \<Rightarrow> 1)
      | Some a \<Rightarrow>
          (case y of
             None \<Rightarrow> - 1
           | Some b \<Rightarrow> if a < b then - 1 else if b < a then 1 else 0))"

text \<open>
  \<^verbatim>\<open>Array.prototype.slice(start, end)\<close> on integers: a negative bound counts
  from the end, both bounds are clamped into the array, and the result is empty when
  the start is not before the end.
\<close>

definition slice :: "'a list \<Rightarrow> int \<Rightarrow> int \<Rightarrow> 'a list" where
  "slice xs start fin =
     (let len = int (length xs);
          k = (if start < 0 then max (len + start) 0 else min start len);
          final = (if fin < 0 then max (len + fin) 0 else min fin len)
      in take (nat (final - k)) (drop (nat k) xs))"

subsection \<open>State\<close>

record directory_state =
  users :: "user list"
  query :: string
  cityFilter :: string
  sortBy :: string
  page :: int
  loading :: bool
  error :: "string option"

definition initial_state :: directory_state where
  "initial_state =
     \<lparr>users = [], query = [], cityFilter = ''All'', sortBy = ''name'', page = 1,
      loading = True, error = None\<rparr>"

definition PAGE_SIZE :: nat where
  "PAGE_SIZE = 4"

subsection \<open>The fetch\<close>

text \<open>
  What \<^verbatim>\<open>fetch\<close> and \<^verbatim>\<open>response.json()\<close> can do: the request is rejected, or it
  answers with the flag \<^verbatim>\<open>ok\<close> and a body that parses (\<^term>\<open>Some\<close>) or does not.
\<close>

datatype fetch_outcome = Rejected | Response bool "user list option"

definition fetchUsers :: "directory_state \<Rightarrow> fetch_outcome \<Rightarrow> directory_state" where
  "fetchUsers st r =
     (let st1 =
        (case r of
           Rejected \<Rightarrow> st\<lparr>error := Some ''Failed to fetch users. Please try again.''\<rparr>
         | Response ok body \<Rightarrow>
             if \<not> ok then st\<lparr>error := Some ''Failed to fetch users. Please try again.''\<rparr>
             else (case body of
                     None \<Rightarrow> st\<lparr>error := Some ''Failed to fetch users. Please try again.''\<rparr>
                   | Some data \<Rightarrow> st\<lparr>users := data\<rparr>))
      in st1\<lparr>loading := False\<rparr>)"

subsection \<open>Derived values\<close>

definition cities :: "user list \<Rightarrow> string option list" where
  "cities us = Some ''All'' # array_sort default_compare (new_Set (map address_city us))"

definition query_step :: "string \<Rightarrow> user list \<Rightarrow> user list" where
  "query_step q us =
     (if q \<noteq> [] then
        filter (\<lambda>u. includes_str (toLowerCase (name u @ username u @ email u @ company_name_or_empty u))
                              (toLowerCase q)) us
      else us)"

definition city_step :: "string \<Rightarrow> user list \<Rightarrow> user list" where
  "city_step cf us =
     (if cf \<noteq> ''All'' then filter (\<lambda>u. address_city u = Some cf) us else us)"

text \<open>
  \<^verbatim>\<open>localeCompare\<close> is the engine's collation, a parameter \<open>lc\<close> of the model.
\<close>

definition sort_comparator :: "(string \<Rightarrow> string \<Rightarrow> int) \<Rightarrow> string \<Rightarrow> user \<Rightarrow> user \<Rightarrow> int" where
  "sort_comparator lc sb a b =
     (if sb = ''name'' then lc (name a) (name b)
      else if sb = ''company'' then lc (company_name_or_empty a) (company_name_or_empty b)
      else 0)"

definition filtered :: "(string \<Rightarrow> string \<Rightarrow> int) \<Rightarrow> user list \<Rightarrow> string \<Rightarrow> string \<Rightarrow> string \<Rightarrow> user list" where
  "filtered lc us q cf sb = array_sort (sort_comparator lc sb) (city_step cf (query_step q us))"

text \<open>
  \<^verbatim>\<open>Math.ceil(filtered.length / PAGE_SIZE)\<close>: the quotient of a length by 4 is exact
  in double precision, so the real quotient and its ceiling are what is computed.
\<close>

definition totalPages :: "'a list \<Rightarrow> int" where
  "totalPages fl = \<lceil>real (length fl) / real PAGE_SIZE\<rceil>"

definition paginated :: "'a list \<Rightarrow> int \<Rightarrow> 'a list" where
  "paginated fl p = slice fl ((p - 1) * int PAGE_SIZE) (p * int PAGE_SIZE)"

definition state_filtered :: "(string \<Rightarrow> string \<Rightarrow> int) \<Rightarrow> directory_state \<Rightarrow> user list" where
  "state_filtered lc st = filtered lc (users st) (query st) (cityFilter st) (sortBy st)"


subsection \<open>Handlers\<close>

definition handleQueryChange :: "directory_state \<Rightarrow> string \<Rightarrow> directory_state" where
  "handleQueryChange st v = (st\<lparr>query := v\<rparr>)\<lparr>page := 1\<rparr>"

definition handleCityChange :: "directory_state \<Rightarrow> string \<Rightarrow> directory_state" where
  "handleCityChange st v = (st\<lparr>cityFilter := v\<rparr>)\<lparr>page := 1\<rparr>"

definition handleSortChange :: "directory_state \<Rightarrow> string \<Rightarrow> directory_state" where
  "handleSortChange st v = st\<lparr>sortBy := v\<rparr>"

text \<open>
  The two buttons of the footer: \<^verbatim>\<open>setPage((p) => Math.max(p - 1, 1))\<close> and
  \<^verbatim>\<open>setPage((p) => Math.min(p + 1, totalPages))\<close>, and their \<^verbatim>\<open>disabled\<close>
  attributes.
\<close>

definition previousPage :: "directory_state \<Rightarrow> directory_state" where
  "previousPage st = st\<lparr>page := max (page st - 1) 1\<rparr>"

definition nextPage :: "(string \<Rightarrow> string \<Rightarrow> int) \<Rightarrow> directory_state \<Rightarrow> directory_state" where
  "nextPage lc st = st\<lparr>page := min (page st + 1) (totalPages (state_filtered lc st))\<rparr>"

definition previous_disabled :: "directory_state \<Rightarrow> bool" where
  "previous_disabled st = (page st = 1)"

definition next_disabled :: "(string \<Rightarrow> string \<Rightarrow> int) \<Rightarrow> directory_state \<Rightarrow> bool" where
  "next_disabled lc st = (page st = totalPages (state_filtered lc st))"

text \<open>The footer is rendered only when \<^verbatim>\<open>!loading && !error\<close>.\<close>

definition footer_shown :: "directory_state \<Rightarrow> bool" where
  "footer_shown st = (\<not> loading st \<and> error st = None)"

subsection \<open>Notions of the specification\<close>

text \<open>
  The fetch has failed: the request was rejected, the status was not a success, or
  the body did not parse.
\<close>

definition fetch_failed :: "fetch_outcome \<Rightarrow> bool" where
  "fetch_failed r = (case r of Rejected \<Rightarrow> True | Response ok body \<Rightarrow> \<not> ok \<or> body = None)"

text \<open>
  The options as the specification words them: \<^verbatim>\<open>All\<close>, then the distinct non-empty
  cities of the dataset in ascending order, and nothing for an empty or absent city.
\<close>

definition claimed_cities :: "user list \<Rightarrow> string option list" where
  "claimed_cities us =
     Some ''All'' #
       map Some (sorted_list_of_set (set [c. Some c \<leftarrow> map address_city us, c \<noteq> []]))"

text \<open>
  The window of page \<open>p\<close>, the indices from \<open>(p - 1) * 4\<close> up to but not including
  \<open>p * 4\<close>, lies outside a sequence when none of them is an index of the sequence.
\<close>

definition window_outside :: "'a list \<Rightarrow> int \<Rightarrow> bool" where
  "window_outside fl p =
     list_all (\<lambda>i. \<not> (0 \<le> i \<and> i < int (length fl))) [(p - 1) * 4 .. p * 4 - 1]"



subsection \<open>Example data\<close>

text \<open>
  A collation to evaluate with: the order of the code units. Three records: two as
  the data source serves them, one without company and address.
\<close>

definition codeunit_compare :: "string \<Rightarrow> string \<Rightarrow> int" where
  "codeunit_compare a b = (if a < b then - 1 else if b < a then 1 else 0)"

definition leanne :: user where
  "leanne =
     \<lparr>user_id = 1, name = ''Leanne Graham'', username = ''Bret'', email = ''Sincere@april.biz'',
      phone = ''1-770-736-8031'', website = ''hildegard.org'',
      company = Some \<lparr>company_name = Some ''Romaguera-Crona'', catchPhrase = Some ''Multi-layered''\<rparr>,
      address = Some \<lparr>street = Some ''Kulas Light'', suite = Some ''Apt. 556'',
        city = Some ''Gwenborough'', zipcode = Some ''92998-3874''\<rparr>\<rparr>"

definition ervin :: user where
  "ervin =
     \<lparr>user_id = 2, name = ''Ervin Howell'', username = ''Antonette'', email = ''Shanna@melissa.tv'',
      phone = ''010-692-6593'', website = ''anastasia.net'',
      company = Some \<lparr>company_name = Some ''Deckow-Crist'', catchPhrase = Some ''Proactive''\<rparr>,
      address = Some \<lparr>street = Some ''Victor Plains'', suite = Some ''Suite 879'',
        city = Some ''Wisokyburgh'', zipcode = Some ''90566-7771''\<rparr>\<rparr>"

definition drifter :: user where
  "drifter =
     \<lparr>user_id = 3, name = ''Ann Other'', username = ''ann'', email = ''ann@example.org'',
      phone = ''555'', website = ''example.org'', company = None, address = None\<rparr>"

text \<open>The state once the fetch has answered with an empty dataset.\<close>

definition empty_ready :: directory_state where
  "empty_ready = fetchUsers initial_state (Response True (Some []))"

section \<open>Pagination\<close>

lemma totalPages_div: "totalPages fl = (int (length fl) + 3) div 4"
proof -
  have "\<lceil>real (length fl) / 4\<rceil> = \<lceil>real_of_int (int (length fl)) / real_of_int 4\<rceil>"
    by simp
  also have "\<dots> = - ((- int (length fl)) div 4)"
    by (simp only: ceiling_divide_eq_div)
  also have "\<dots> = (int (length fl) + 3) div 4"
    by linarith
  finally show ?thesis
    by (simp add: totalPages_def PAGE_SIZE_def)
qed


text \<open>From page 1 on, the slice is the plain one: four rows after skipping the earlier pages.\<close>

lemma paginated_nat:
  assumes "1 \<le> p"
  shows "paginated fl p = take 4 (drop (4 * nat (p - 1)) fl)"
proof -
  obtain k where p: "p = int k + 1"
    using assms by (metis add.commute zle_iff_zadd)
  show ?thesis
    by (auto simp: p paginated_def slice_def PAGE_SIZE_def Let_def min_def nat_diff_distrib
        nat_mult_distrib nat_add_distrib mult.commute)
qed



lemma upto_from_1: "[1 .. int m] = map (\<lambda>k. int k + 1) [0 ..< m]"
  by (induction m) (auto simp: upto_rec2)

lemma concat_chunks: "concat (map (\<lambda>k. take n (drop (n * k) xs)) [0 ..< m]) = take (n * m) xs"
proof (induction m)
  case 0
  show ?case by simp
next
  case (Suc m)
  have "n * Suc m = n * m + n"
    by simp
  then have "take (n * Suc m) xs = take (n * m) xs @ take n (drop (n * m) xs)"
    by (simp only: take_add)
  with Suc show ?case by simp
qed

text \<open>
  Claim C5: the visible rows of the pages 1 to the page count, one after the other,
  are the filtered and sorted sequence: no record is lost and none comes twice.
\<close>

theorem pages_concat: "concat (map (paginated fl) [1 .. totalPages fl]) = fl"
proof -
  define m where "m = nat (totalPages fl)"
  have m: "totalPages fl = int m" and len: "length fl \<le> 4 * m"
    unfolding m_def totalPages_div by auto
  have "map (paginated fl) [1 .. int m] = map (\<lambda>k. take 4 (drop (4 * k) fl)) [0 ..< m]"
    by (simp add: upto_from_1 paginated_nat comp_def)
  then have "concat (map (paginated fl) [1 .. int m]) = take (4 * m) fl"
    using concat_chunks [of 4 fl m] by simp
  with len show ?thesis
    by (simp add: m)
qed

theorem pages_concat_witness:
  "paginated ''abcdefghij'' 1 @ paginated ''abcdefghij'' 2 @ paginated ''abcdefghij'' 3
     = ''abcdefghij''"
proof -
  have "[1 .. totalPages ''abcdefghij''] = [1, 2, 3]"
    by (simp add: totalPages_div upto_rec1)
  with pages_concat [of "''abcdefghij''"] show ?thesis
    by simp
qed

lemma window_outside_iff:
  "window_outside fl p \<longleftrightarrow> p \<le> 0 \<or> int (length fl) \<le> (p - 1) * 4"
proof -
  have "window_outside fl p \<longleftrightarrow>
          (\<forall>i. (p - 1) * 4 \<le> i \<and> i \<le> p * 4 - 1 \<longrightarrow> \<not> (0 \<le> i \<and> i < int (length fl)))"
    by (auto simp: window_outside_def list_all_iff)
  also have "\<dots> \<longleftrightarrow> p \<le> 0 \<or> int (length fl) \<le> (p - 1) * 4"
  proof
    assume h: "\<forall>i. (p - 1) * 4 \<le> i \<and> i \<le> p * 4 - 1 \<longrightarrow> \<not> (0 \<le> i \<and> i < int (length fl))"
    show "p \<le> 0 \<or> int (length fl) \<le> (p - 1) * 4"
    proof (rule ccontr)
      assume "\<not> (p \<le> 0 \<or> int (length fl) \<le> (p - 1) * 4)"
      then have "1 \<le> p" and "(p - 1) * 4 < int (length fl)"
        by auto
      with h [rule_format, of "(p - 1) * 4"] show False
        by auto
    qed
  next
    assume "p \<le> 0 \<or> int (length fl) \<le> (p - 1) * 4"
    then show "\<forall>i. (p - 1) * 4 \<le> i \<and> i \<le> p * 4 - 1 \<longrightarrow> \<not> (0 \<le> i \<and> i < int (length fl))"
      by auto
  qed
  finally show ?thesis .
qed

lemma paginated_length: "length (paginated fl p) \<le> 4"
  by (auto simp: paginated_def slice_def PAGE_SIZE_def Let_def)

lemma paginated_empty_iff:
  "paginated fl p = [] \<longleftrightarrow>
     p = 0 \<or> (1 \<le> p \<and> int (length fl) \<le> (p - 1) * 4) \<or> (p < 0 \<and> int (length fl) \<le> - p * 4)"
  by (auto simp: paginated_def slice_def PAGE_SIZE_def Let_def)

text \<open>
  Claim C10, as the code has it: for every integer page and every sequence the slice
  is defined and has at most four rows; from page 0 on it is empty whenever the window
  lies outside the sequence (page 0, or a page whose window starts at or after the
  end); for a negative page both bounds count from the end of the sequence, and the
  rows are empty exactly when the sequence has at most \<open>- 4 * p\<close> records.
\<close>

theorem paginated_bounded:
  "length (paginated fl p) \<le> 4 \<and>
   (0 \<le> p \<and> window_outside fl p \<longrightarrow> paginated fl p = []) \<and>
   (p < 0 \<longrightarrow> (paginated fl p = [] \<longleftrightarrow> int (length fl) \<le> - p * 4))"
  using paginated_length [of fl p] paginated_empty_iff [of fl p] window_outside_iff [of fl p]
  by auto

theorem paginated_bounded_witness:
  "paginated ''abcde'' 3 = [] \<and> paginated ''abcde'' 0 = [] \<and> paginated ''abcde'' (- 2) = [] \<and>
   length (paginated ''abcde'' 1) \<le> 4"
proof -
  have a: "(0::int) \<le> 3 \<and> window_outside ''abcde'' 3"
    by (simp add: window_outside_iff)
  have b: "(0::int) \<le> 0 \<and> window_outside ''abcde'' 0"
    by (simp add: window_outside_iff)
  have c: "(- 2 :: int) < 0"
    by simp
  from paginated_bounded [of "''abcde''" 3] a have 1: "paginated ''abcde'' 3 = []"
    by blast
  from paginated_bounded [of "''abcde''" 0] b have 2: "paginated ''abcde'' 0 = []"
    by blast
  from paginated_bounded [of "''abcde''" "- 2"] c have 3: "paginated ''abcde'' (- 2) = []"
    by simp
  from paginated_bounded [of "''abcde''" 1] have 4: "length (paginated ''abcde'' 1) \<le> 4"
    by blast
  from 1 2 3 4 show ?thesis
    by blast
qed

text \<open>
  Claim C10 as it is stated fails at page \<open>- 1\<close> of five records: the window, the
  indices \<open>- 8\<close> to \<open>- 5\<close>, lies outside the sequence, and \<^verbatim>\<open>slice(-8, -4)\<close> yields
  the first record.
\<close>

theorem paginated_negative_page_counterexample:
  "window_outside ''abcde'' (- 1) \<and> paginated ''abcde'' (- 1) = ''a''"
  by (simp add: window_outside_iff paginated_def slice_def PAGE_SIZE_def)

section \<open>The handlers\<close>

text \<open>
  Claim C8: \<^verbatim>\<open>handleQueryChange\<close> and \<^verbatim>\<open>handleCityChange\<close> store the new text and
  set the page to 1 whatever the text is; \<^verbatim>\<open>handleSortChange\<close> stores the new sort
  key and leaves the page, and every other field, as it was.
\<close>

theorem handlers_page_reset:
  "query (handleQueryChange st v) = v \<and> page (handleQueryChange st v) = 1 \<and>
   cityFilter (handleCityChange st v) = v \<and> page (handleCityChange st v) = 1 \<and>
   sortBy (handleSortChange st v) = v \<and> page (handleSortChange st v) = page st \<and>
   users (handleSortChange st v) = users st \<and> query (handleSortChange st v) = query st \<and>
   cityFilter (handleSortChange st v) = cityFilter st \<and>
   loading (handleSortChange st v) = loading st \<and> error (handleSortChange st v) = error st"
  by (simp add: handleQueryChange_def handleCityChange_def handleSortChange_def)

text \<open>What the two buttons do keep: Previous stays at or above 1, Next at or below the page count.\<close>

lemma previousPage_lower: "1 \<le> page (previousPage st)"
  by (simp add: previousPage_def)

lemma nextPage_upper: "page (nextPage lc st) \<le> totalPages (state_filtered lc st)"
  by (simp add: nextPage_def)

lemma nextPage_lower:
  "1 \<le> totalPages (state_filtered lc st) \<Longrightarrow> 0 \<le> page st \<Longrightarrow> 1 \<le> page (nextPage lc st)"
  by (simp add: nextPage_def)

lemma next_disabled_last_page:
  "page st = totalPages (state_filtered lc st) \<Longrightarrow> next_disabled lc st"
  by (simp add: next_disabled_def)

text \<open>
  Claim C1 says that the page never leaves 1 when there are no pages. The code at that
  state: after a fetch that answers with an empty dataset the footer is shown, the
  page is 1 and the page count is 0, so the Next button is not disabled, and pressing
  it sets the page to \<^verbatim>\<open>Math.min(2, 0)\<close>, which is 0.
\<close>

theorem next_page_without_pages:
  "footer_shown empty_ready \<and> page empty_ready = 1 \<and>
   totalPages (state_filtered lc empty_ready) = 0 \<and>
   \<not> next_disabled lc empty_ready \<and>
   page (nextPage lc empty_ready) = 0"
  by (simp add: empty_ready_def footer_shown_def fetchUsers_def initial_state_def
      next_disabled_def nextPage_def state_filtered_def filtered_def query_step_def
      city_step_def array_sort_def totalPages_div)

section \<open>The fetch\<close>

lemma cities_Nil: "cities [] = [Some ''All'']"
  by (simp add: cities_def new_Set_def array_sort_def)

text \<open>
  Claim C7: a fetch that fails leaves the error message
  \<^verbatim>\<open>Failed to fetch users. Please try again.\<close>, the loading flag false, the dataset
  empty as it was (only the fetch writes it), and \<^verbatim>\<open>All\<close> as the only city option.
\<close>

theorem fetch_failure_state:
  assumes "users st = []" and "fetch_failed r"
  shows "error (fetchUsers st r) = Some ''Failed to fetch users. Please try again.'' \<and>
         loading (fetchUsers st r) = False \<and>
         users (fetchUsers st r) = [] \<and>
         cities (users (fetchUsers st r)) = [Some ''All'']"
  using assms
  by (auto simp: fetchUsers_def fetch_failed_def cities_Nil
      split: fetch_outcome.splits option.splits)

text \<open>A status that is not a success, at the initial state.\<close>

theorem fetch_failure_state_witness:
  "error (fetchUsers initial_state (Response False None))
     = Some ''Failed to fetch users. Please try again.'' \<and>
   loading (fetchUsers initial_state (Response False None)) = False \<and>
   users (fetchUsers initial_state (Response False None)) = [] \<and>
   cities (users (fetchUsers initial_state (Response False None))) = [Some ''All'']"
proof -
  have u: "users initial_state = []"
    by (simp add: initial_state_def)
  have f: "fetch_failed (Response False None)"
    by (simp add: fetch_failed_def)
  show ?thesis
    using fetch_failure_state [OF u f] .
qed

section \<open>Sorting\<close>

lemma array_sort_Cons: "array_sort cmp (x # xs) = insort_cmp cmp x (array_sort cmp xs)"
  by (simp add: array_sort_def)

lemma mset_insort_cmp: "mset (insort_cmp cmp x xs) = add_mset x (mset xs)"
  by (induction xs) auto

lemma mset_array_sort: "mset (array_sort cmp xs) = mset xs"
proof (induction xs)
  case Nil
  show ?case by (simp add: array_sort_def)
next
  case (Cons x xs)
  then show ?case by (simp add: array_sort_Cons mset_insort_cmp)
qed

lemma set_array_sort: "set (array_sort cmp xs) = set xs"
  using mset_array_sort [of cmp xs] by (metis set_mset_mset)

lemma distinct_array_sort: "distinct (array_sort cmp xs) \<longleftrightarrow> distinct xs"
  using mset_array_sort [of cmp xs] by (metis distinct_count_atmost_1 set_mset_mset)

lemma sorted_insort_cmp:
  assumes total: "\<And>a b. cmp a b \<le> 0 \<or> cmp b a \<le> 0"
    and trans: "\<And>a b c. cmp a b \<le> 0 \<Longrightarrow> cmp b c \<le> 0 \<Longrightarrow> cmp a c \<le> 0"
    and "sorted_wrt (\<lambda>a b. cmp a b \<le> 0) xs"
  shows "sorted_wrt (\<lambda>a b. cmp a b \<le> 0) (insort_cmp cmp x xs)"
  using assms(3)
proof (induction xs)
  case Nil
  show ?case by simp
next
  case (Cons y ys)
  show ?case
  proof (cases "cmp x y \<le> 0")
    case True
    with Cons.prems show ?thesis
      by (auto intro: trans)
  next
    case False
    with total [of x y] have "cmp y x \<le> 0"
      by simp
    moreover have "set (insort_cmp cmp x ys) = insert x (set ys)"
      using mset_insort_cmp [of cmp x ys] by (metis set_mset_add_mset_insert set_mset_mset)
    ultimately show ?thesis
      using False Cons by auto
  qed
qed

lemma sorted_array_sort:
  assumes total: "\<And>a b. cmp a b \<le> 0 \<or> cmp b a \<le> 0"
    and trans: "\<And>a b c. cmp a b \<le> 0 \<Longrightarrow> cmp b c \<le> 0 \<Longrightarrow> cmp a c \<le> 0"
  shows "sorted_wrt (\<lambda>a b. cmp a b \<le> 0) (array_sort cmp xs)"
proof (induction xs)
  case Nil
  show ?case by (simp add: array_sort_def)
next
  case (Cons x xs)
  then show ?case
    using sorted_insort_cmp [of cmp "array_sort cmp xs" x, OF total trans]
    by (simp add: array_sort_Cons)
qed

text \<open>A comparator that answers 0 for every pair leaves the array as it is.\<close>

lemma array_sort_no_order:
  assumes "\<And>a b. cmp a b = 0"
  shows "array_sort cmp xs = xs"
proof (induction xs)
  case Nil
  show ?case by (simp add: array_sort_def)
next
  case (Cons x xs)
  have "array_sort cmp (x # xs) = insort_cmp cmp x xs"
    using Cons by (simp add: array_sort_Cons)
  also have "\<dots> = x # xs"
    by (cases xs) (simp_all add: assms)
  finally show ?case .
qed

lemma codeunit_compare_le: "codeunit_compare a b \<le> 0 \<longleftrightarrow> a \<le> b"
  by (auto simp: codeunit_compare_def)

text \<open>
  Claim C6: for a collation \<open>lc\<close> that is a total preorder, the list sorted by
  \<^verbatim>\<open>name\<close> does not decrease in the names, the list sorted by \<^verbatim>\<open>company\<close> does
  not decrease in the company names (the empty string where there is none), and for
  any other key the list is the filtered one, in its order. In each case the records
  are those that passed the filters.
\<close>

theorem filtered_sorted:
  assumes total: "\<And>a b. lc a b \<le> 0 \<or> lc b a \<le> 0"
    and trans: "\<And>a b c. lc a b \<le> 0 \<Longrightarrow> lc b c \<le> 0 \<Longrightarrow> lc a c \<le> 0"
  shows "sorted_wrt (\<lambda>a b. lc (name a) (name b) \<le> 0) (filtered lc us q cf ''name'') \<and>
         sorted_wrt (\<lambda>a b. lc (company_name_or_empty a) (company_name_or_empty b) \<le> 0)
           (filtered lc us q cf ''company'') \<and>
         (sb \<noteq> ''name'' \<and> sb \<noteq> ''company'' \<longrightarrow>
            filtered lc us q cf sb = city_step cf (query_step q us)) \<and>
         mset (filtered lc us q cf sb) = mset (city_step cf (query_step q us))"
proof -
  have n: "sort_comparator lc ''name'' = (\<lambda>a b. lc (name a) (name b))"
    by (simp add: sort_comparator_def fun_eq_iff)
  have c: "sort_comparator lc ''company'' =
             (\<lambda>a b. lc (company_name_or_empty a) (company_name_or_empty b))"
    by (simp add: sort_comparator_def fun_eq_iff)
  have 1: "sorted_wrt (\<lambda>a b. lc (name a) (name b) \<le> 0) (filtered lc us q cf ''name'')"
    unfolding filtered_def n
    by (rule sorted_array_sort) (use total trans in blast)+
  have 2: "sorted_wrt (\<lambda>a b. lc (company_name_or_empty a) (company_name_or_empty b) \<le> 0)
             (filtered lc us q cf ''company'')"
    unfolding filtered_def c
    by (rule sorted_array_sort) (use total trans in blast)+
  have 3: "filtered lc us q cf sb = city_step cf (query_step q us)"
    if "sb \<noteq> ''name''" and "sb \<noteq> ''company''"
    unfolding filtered_def
    by (rule array_sort_no_order) (simp add: sort_comparator_def that)
  have 4: "mset (filtered lc us q cf sb) = mset (city_step cf (query_step q us))"
    by (simp add: filtered_def mset_array_sort)
  from 1 2 3 4 show ?thesis
    by blast
qed

theorem filtered_sorted_witness:
  "sorted_wrt (\<lambda>a b. codeunit_compare (name a) (name b) \<le> 0)
     (filtered codeunit_compare [leanne, ervin, drifter] [] ''All'' ''name'') \<and>
   filtered codeunit_compare [leanne, ervin, drifter] [] ''All'' ''name''
     = [drifter, ervin, leanne] \<and>
   sorted_wrt (\<lambda>a b. codeunit_compare (company_name_or_empty a) (company_name_or_empty b) \<le> 0)
     (filtered codeunit_compare [leanne, ervin, drifter] [] ''All'' ''company'') \<and>
   filtered codeunit_compare [leanne, ervin, drifter] [] ''All'' ''company''
     = [drifter, ervin, leanne] \<and>
   filtered codeunit_compare [leanne, ervin, drifter] [] ''All'' ''email''
     = [leanne, ervin, drifter]"
proof -
  have total: "\<And>a b. codeunit_compare a b \<le> 0 \<or> codeunit_compare b a \<le> 0"
    by (auto simp: codeunit_compare_le)
  have trans: "\<And>a b c. codeunit_compare a b \<le> 0 \<Longrightarrow> codeunit_compare b c \<le> 0
                 \<Longrightarrow> codeunit_compare a c \<le> 0"
    by (auto simp: codeunit_compare_le)
  have n: "filtered codeunit_compare [leanne, ervin, drifter] [] ''All'' ''name''
             = [drifter, ervin, leanne]"
    by code_simp
  have c: "filtered codeunit_compare [leanne, ervin, drifter] [] ''All'' ''company''
             = [drifter, ervin, leanne]"
    by code_simp
  have e: "city_step ''All'' (query_step [] [leanne, ervin, drifter]) = [leanne, ervin, drifter]"
    by (simp add: city_step_def query_step_def)
  from filtered_sorted [of codeunit_compare "[leanne, ervin, drifter]" "[]" "''All''" "''email''",
      OF total trans]
  show ?thesis
    using n c e by simp
qed

section \<open>The city options\<close>

lemma set_foldl_set_add: "set (foldl set_add acc xs) = set acc \<union> set xs"
  by (induction xs arbitrary: acc) (auto simp: set_add_def)

lemma distinct_foldl_set_add: "distinct acc \<Longrightarrow> distinct (foldl set_add acc xs)"
  by (induction xs arbitrary: acc) (auto simp: set_add_def)

lemma set_new_Set: "set (new_Set xs) = set xs"
  by (simp add: new_Set_def set_foldl_set_add)

lemma distinct_new_Set: "distinct (new_Set xs)"
  by (simp add: new_Set_def distinct_foldl_set_add)

lemma default_compare_total: "default_compare x y \<le> 0 \<or> default_compare y x \<le> 0"
  by (auto simp: default_compare_def split: option.splits)

lemma default_compare_trans:
  "default_compare x y \<le> 0 \<Longrightarrow> default_compare y z \<le> 0 \<Longrightarrow> default_compare x z \<le> 0"
  by (auto simp: default_compare_def split: option.splits if_splits)

lemma default_compare_Some:
  "default_compare (Some a) y \<le> 0 \<longleftrightarrow> (y = None \<or> (\<exists>b. y = Some b \<and> a \<le> b))"
  by (auto simp: default_compare_def split: option.splits)

lemma default_compare_None: "default_compare None y \<le> 0 \<longleftrightarrow> y = None"
  by (auto simp: default_compare_def split: option.splits)

text \<open>
  A list without repetition that the default comparator has sorted: the strings in
  ascending order, then \<^verbatim>\<open>undefined\<close> if it occurs.
\<close>

lemma default_sorted_shape:
  assumes "sorted_wrt (\<lambda>x y. default_compare x y \<le> 0) xs" and "distinct xs"
  shows "xs = map Some (sorted_list_of_set {c. Some c \<in> set xs}) @
              (if None \<in> set xs then [None] else [])"
  using assms
proof (induction xs)
  case Nil
  show ?case by simp
next
  case (Cons x xs)
  show ?case
  proof (cases x)
    case None
    have "xs = []"
    proof (cases xs)
      case Nil
      then show ?thesis .
    next
      case (Cons y ys)
      with Cons.prems None show ?thesis
        by (auto simp: default_compare_None)
    qed
    with None show ?thesis
      by simp
  next
    case (Some a)
    let ?T = "{c. Some c \<in> set xs}"
    have fin: "finite ?T"
    proof -
      have "?T \<subseteq> the ` set xs"
        by force
      then show ?thesis
        by (rule finite_subset) simp
    qed
    have lt: "\<forall>b \<in> ?T. a < b"
    proof
      fix b
      assume "b \<in> ?T"
      then have b: "Some b \<in> set xs"
        by simp
      with Cons.prems(1) Some have "a \<le> b"
        by (auto simp: default_compare_Some)
      moreover from b Cons.prems(2) Some have "a \<noteq> b"
        by auto
      ultimately show "a < b"
        by simp
    qed
    have "{c. Some c \<in> set (x # xs)} = insert a ?T"
      using Some by auto
    moreover have "sorted_list_of_set (insert a ?T) = a # sorted_list_of_set ?T"
    proof -
      from lt have "a \<notin> ?T"
        by auto
      then have "?T - {a} = ?T"
        by simp
      with fin have "sorted_list_of_set (insert a ?T) = insort a (sorted_list_of_set ?T)"
        by (simp add: sorted_list_of_set_insert_remove)
      also have "\<dots> = a # sorted_list_of_set ?T"
        using fin lt by (intro insort_is_Cons) (auto intro: order_less_imp_le)
      finally show ?thesis .
    qed
    moreover have "xs = map Some (sorted_list_of_set ?T) @ (if None \<in> set xs then [None] else [])"
      using Cons by simp
    ultimately show ?thesis
      using Some by simp
  qed
qed

text \<open>
  Claim C2, as the code has it: the options are \<^verbatim>\<open>All\<close>, then the distinct city
  texts of the dataset in ascending order of their code units (the empty text as any
  other), then one absent option if some record has no address or no city.
\<close>

theorem cities_shape:
  "cities us =
     Some ''All'' # map Some (sorted_list_of_set {c. Some c \<in> address_city ` set us}) @
       (if None \<in> address_city ` set us then [None] else [])"
proof -
  let ?xs = "array_sort default_compare (new_Set (map address_city us))"
  have s: "set ?xs = address_city ` set us"
    by (simp add: set_array_sort set_new_Set)
  have "sorted_wrt (\<lambda>x y. default_compare x y \<le> 0) ?xs"
    by (rule sorted_array_sort) (rule default_compare_total, erule default_compare_trans)
  moreover have "distinct ?xs"
    by (simp add: distinct_array_sort distinct_new_Set)
  ultimately have "?xs = map Some (sorted_list_of_set {c. Some c \<in> set ?xs}) @
              (if None \<in> set ?xs then [None] else [])"
    by (rule default_sorted_shape)
  then show ?thesis
    unfolding s by (simp add: cities_def)
qed

theorem cities_shape_witness:
  "cities [ervin, drifter, leanne, ervin]
     = [Some ''All'', Some ''Gwenborough'', Some ''Wisokyburgh'', None]"
proof -
  have "{c. Some c \<in> address_city ` set [ervin, drifter, leanne, ervin]}
          = {''Wisokyburgh'', ''Gwenborough''}"
    by (auto simp: address_city_def ervin_def drifter_def leanne_def)
  moreover have "sorted_list_of_set {''Wisokyburgh'', ''Gwenborough''}
                   = [''Gwenborough'', ''Wisokyburgh'']"
    by simp
  moreover have "None \<in> address_city ` set [ervin, drifter, leanne, ervin]"
    by (simp add: address_city_def drifter_def)
  ultimately show ?thesis
    using cities_shape [of "[ervin, drifter, leanne, ervin]"] by simp
qed

text \<open>
  Claim C2 as it is stated fails on a dataset whose one record has no address: the
  options of the code hold an absent city, those of the claim do not.
\<close>

theorem cities_absent_city_counterexample:
  "cities [drifter] = [Some ''All'', None] \<and> claimed_cities [drifter] = [Some ''All'']"
  by (simp add: cities_def claimed_cities_def drifter_def address_city_def new_Set_def
      set_add_def array_sort_def)

section \<open>The query filter\<close>











end
